theory Spec2Isabelle
  imports Complex_Main "HOL-Library.Word" "HOL-Library.Monad_Syntax"
begin

section \<open>Data model\<close>

text \<open>
  The image editor is a Flask application (\<^verbatim>\<open>app.py\<close>) over a module of helpers
  (\<^verbatim>\<open>utils/image_processor.py\<close>). Decoding, pixel operations and encoding are done
  by Pillow, which is not part of the repository: the model takes the library as a
  record of functions, one field per library call the source makes. A library call that
  raises returns \<open>None\<close>; every handler of \<^verbatim>\<open>app.py\<close> catches every exception at
  its boundary and answers with status 500.
\<close>

type_synonym bytes = "8 word list"

text \<open>
  The upload folder is a flat map from path strings to file contents. Paths are compared
  as strings: the folder holds regular files only (no sub-directory, no link), which is
  all the application ever creates there.
\<close>

type_synonym filesystem = "string \<rightharpoonup> bytes"

record 'img pil =
  pil_open :: "bytes \<Rightarrow> 'img option"
  pil_mode :: "'img \<Rightarrow> string"
  pil_width :: "'img \<Rightarrow> int"
  pil_height :: "'img \<Rightarrow> int"
  pil_format :: "'img \<Rightarrow> string option"
  pil_new_rgb_white :: "int \<times> int \<Rightarrow> 'img option"
  pil_convert_rgba :: "'img \<Rightarrow> 'img option"
  pil_split :: "'img \<Rightarrow> 'img list"
  pil_paste :: "'img \<Rightarrow> 'img \<Rightarrow> 'img option \<Rightarrow> 'img option"
  pil_brightness :: "'img \<Rightarrow> real \<Rightarrow> 'img option"
  pil_contrast :: "'img \<Rightarrow> real \<Rightarrow> 'img option"
  pil_color :: "'img \<Rightarrow> real \<Rightarrow> 'img option"
  pil_sharpness :: "'img \<Rightarrow> real \<Rightarrow> 'img option"
  pil_crop :: "'img \<Rightarrow> int \<times> int \<times> int \<times> int \<Rightarrow> 'img option"
  pil_save :: "'img \<Rightarrow> string \<Rightarrow> int option \<Rightarrow> bool option \<Rightarrow> bytes option"
  pil_registered :: "string \<Rightarrow> bool"
  b64encode :: "bytes \<Rightarrow> string"
  secure_filename :: "string \<Rightarrow> string"

text \<open>
  \<open>pil_save L img fmt quality optimize\<close> is \<^verbatim>\<open>img.save(target, format=fmt, ...)\<close>:
  the keyword \<^verbatim>\<open>quality\<close> and the keyword \<^verbatim>\<open>optimize\<close> are passed when they are
  \<open>Some\<close>. The result is the bytes written to the target. \<open>pil_registered L name\<close>
  says that Pillow has a save handler under the upper-case format name, the lookup
  \<^verbatim>\<open>SAVE[format.upper()]\<close> that \<^verbatim>\<open>Image.save\<close> makes before it opens a file; the
  source's saves into memory only need \<open>pil_save\<close>. The multipliers of the
  enhancers are IEEE doubles in the source; the handlers only compare them with
  \<^verbatim>\<open>1.0\<close> and hand them to the library, so the model takes them from \<open>real\<close>.
\<close>

subsection \<open>Strings and paths\<close>

text \<open>
  \<^verbatim>\<open>str.upper\<close> and \<^verbatim>\<open>str.lower\<close> on the ASCII letters; the format names and file
  extensions the source compares them with are ASCII.
\<close>

definition char_upper :: "char \<Rightarrow> char" where
  "char_upper c =
     (let n = (of_char c :: nat) in if 97 \<le> n \<and> n \<le> 122 then char_of (n - 32) else c)"

definition char_lower :: "char \<Rightarrow> char" where
  "char_lower c =
     (let n = (of_char c :: nat) in if 65 \<le> n \<and> n \<le> 90 then char_of (n + 32) else c)"

definition upper :: "string \<Rightarrow> string" where
  "upper s = map char_upper s"

definition lower :: "string \<Rightarrow> string" where
  "lower s = map char_lower s"

text \<open>\<^verbatim>\<open>s.rsplit('.', 1)\<close>: one element when \<open>s\<close> has no dot, else the parts around the last dot.\<close>

definition rsplit_dot :: "string \<Rightarrow> string list" where
  "rsplit_dot s =
     (if CHR ''.'' \<in> set s
      then [rev (tl (dropWhile (\<lambda>c. c \<noteq> CHR ''.'') (rev s))),
            rev (takeWhile (\<lambda>c. c \<noteq> CHR ''.'') (rev s))]
      else [s])"


fun index1 :: "'a list \<Rightarrow> 'a option" where
  "index1 (x # y # xs) = Some y"
| "index1 xs = None"

definition UPLOAD_FOLDER :: string where
  "UPLOAD_FOLDER = ''static/uploads''"

text \<open>\<^verbatim>\<open>os.path.join(folder, name)\<close> on POSIX: an absolute second component replaces the first.\<close>

definition path_join :: "string \<Rightarrow> string \<Rightarrow> string" where
  "path_join a b =
     (if b \<noteq> [] \<and> hd b = CHR ''/'' then b
      else if a = [] \<or> last a = CHR ''/'' then a @ b
      else a @ ''/'' @ b)"

definition current_path :: "string \<Rightarrow> string" where
  "current_path filename = path_join UPLOAD_FOLDER filename"

definition original_path :: "string \<Rightarrow> string" where
  "original_path filename = path_join UPLOAD_FOLDER (''original_'' @ filename)"

definition path_exists :: "filesystem \<Rightarrow> string \<Rightarrow> bool" where
  "path_exists fs p = (fs p \<noteq> None)"

definition os_remove :: "filesystem \<Rightarrow> string \<Rightarrow> filesystem" where
  "os_remove fs p = fs(p := None)"


section \<open>utils/image_processor.py\<close>

definition ALLOWED_EXTENSIONS :: "string set" where
  "ALLOWED_EXTENSIONS = {''png'', ''jpg'', ''jpeg'', ''webp''}"

definition allowed_file :: "string \<Rightarrow> bool" where
  "allowed_file filename =
     (CHR ''.'' \<in> set filename \<and>
      (case index1 (rsplit_dot filename) of
         None \<Rightarrow> False
       | Some ext \<Rightarrow> lower ext \<in> ALLOWED_EXTENSIONS))"

text \<open>\<^verbatim>\<open>Image.open(path)\<close>: raises when the file is missing or is not an image.\<close>

definition image_open :: "'img pil \<Rightarrow> filesystem \<Rightarrow> string \<Rightarrow> 'img option" where
  "image_open L fs p = (case fs p of None \<Rightarrow> None | Some b \<Rightarrow> pil_open L b)"

definition alpha_modes :: "string set" where
  "alpha_modes = {''RGBA'', ''LA'', ''P''}"

text \<open>
  The block that composites an image with an alpha or palette channel onto a white RGB
  background. The source repeats it in \<^verbatim>\<open>preview_adjustments\<close>,
  \<^verbatim>\<open>adjust_brightness\<close>, \<^verbatim>\<open>compress_image\<close> and \<^verbatim>\<open>save_image\<close>; this is
  the body of its \<^verbatim>\<open>if\<close>.
\<close>

definition composite_on_white :: "'img pil \<Rightarrow> 'img \<Rightarrow> 'img option" where
  "composite_on_white L img =
     do {
       background \<leftarrow> pil_new_rgb_white L (pil_width L img, pil_height L img);
       img1 \<leftarrow> (if pil_mode L img = ''P'' then pil_convert_rgba L img else Some img);
       mask \<leftarrow> (if pil_mode L img1 \<in> {''RGBA'', ''LA''}
                then (case pil_split L img1 of [] \<Rightarrow> None | bands \<Rightarrow> Some (Some (last bands)))
                else Some None);
       pil_paste L background img1 mask
     }"

definition to_rgb :: "'img pil \<Rightarrow> 'img \<Rightarrow> 'img option" where
  "to_rgb L img =
     (if pil_mode L img \<in> alpha_modes then composite_on_white L img else Some img)"

definition image_to_base64 :: "'img pil \<Rightarrow> 'img \<Rightarrow> string option" where
  "image_to_base64 L img =
     do {
       buffered \<leftarrow> pil_save L img ''PNG'' None None;
       Some (''data:image/png;base64,'' @ b64encode L buffered)
     }"

text \<open>
  The metadata of \<^verbatim>\<open>get_image_info\<close>. The source reports \<^verbatim>\<open>size_kb\<close> and
  \<^verbatim>\<open>size_mb\<close>, both \<^verbatim>\<open>round(size_bytes / k, 2)\<close>; the model keeps the byte count
  they are computed from.
\<close>

record image_info =
  info_width :: int
  info_height :: int
  info_format :: string
  info_size_bytes :: nat

definition format_or_png :: "'img pil \<Rightarrow> 'img \<Rightarrow> string" where
  "format_or_png L img =
     (case pil_format L img of
        None \<Rightarrow> ''PNG''
      | Some f \<Rightarrow> if f = [] then ''PNG'' else f)"

definition get_image_info :: "'img pil \<Rightarrow> 'img \<Rightarrow> image_info option" where
  "get_image_info L img =
     do {
       buffered \<leftarrow> pil_save L img (format_or_png L img) None None;
       Some \<lparr>info_width = pil_width L img, info_height = pil_height L img,
             info_format = format_or_png L img, info_size_bytes = length buffered\<rparr>
     }"

definition adjust_brightness :: "'img pil \<Rightarrow> filesystem \<Rightarrow> string \<Rightarrow> real \<Rightarrow> 'img option" where
  "adjust_brightness L fs image_path brightness_factor =
     do {
       img \<leftarrow> image_open L fs image_path;
       img \<leftarrow> to_rgb L img;
       pil_brightness L img brightness_factor
     }"

subsection \<open>compress\_image\<close>

text \<open>
  \<^verbatim>\<open>size_kb = buffered.tell() / 1024\<close> is a float; dividing a byte count by a power
  of two is exact, and Python compares a float with an int exactly, so the model takes
  the quotient in the rationals.
\<close>

definition size_kb :: "bytes \<Rightarrow> rat" where
  "size_kb buffered = of_nat (length buffered) / 1024"

definition encode_jpeg :: "'img pil \<Rightarrow> 'img \<Rightarrow> int \<Rightarrow> bytes option" where
  "encode_jpeg L img current_quality = pil_save L img ''JPEG'' (Some current_quality) (Some True)"

text \<open>
  The \<^verbatim>\<open>while current_quality > 10\<close> loop. The first component is the value of
  \<^verbatim>\<open>current_quality\<close> when the loop is left (\<open>None\<close> when the encoder raised); the
  second is the list of qualities the encoder was called with, in order, which the
  source does not keep and the model records to count the iterations.
\<close>

function quality_search :: "'img pil \<Rightarrow> 'img \<Rightarrow> int \<Rightarrow> int \<Rightarrow> int option \<times> int list" where
  "quality_search L img max_size_kb current_quality =
     (if current_quality > 10 then
        (case encode_jpeg L img current_quality of
           None \<Rightarrow> (None, [current_quality])
         | Some buffered \<Rightarrow>
             if size_kb buffered \<le> of_int max_size_kb then (Some current_quality, [current_quality])
             else (case quality_search L img max_size_kb (current_quality - 5) of
                     (r, tried) \<Rightarrow> (r, current_quality # tried)))
      else (Some current_quality, []))"
  by pat_completeness auto
termination
  by (relation "measure (\<lambda>(L, img, max_size_kb, current_quality). nat (current_quality - 10))") auto

declare quality_search.simps [simp del]

text \<open>
  \<^verbatim>\<open>max_size_kb=None\<close> is the default; \<^verbatim>\<open>if max_size_kb:\<close> is false for \<open>None\<close>
  and for \<open>0\<close>.
\<close>

definition truthy_int :: "int option \<Rightarrow> bool" where
  "truthy_int v = (case v of None \<Rightarrow> False | Some n \<Rightarrow> n \<noteq> 0)"

definition compress_image ::
  "'img pil \<Rightarrow> filesystem \<Rightarrow> string \<Rightarrow> int \<Rightarrow> int option \<Rightarrow> ('img \<times> int) option" where
  "compress_image L fs image_path quality max_size_kb =
     do {
       img \<leftarrow> image_open L fs image_path;
       img \<leftarrow> to_rgb L img;
       if truthy_int max_size_kb then
         (case fst (quality_search L img (the max_size_kb) quality) of
            None \<Rightarrow> None
          | Some current_quality \<Rightarrow> Some (img, current_quality))
       else Some (img, quality)
     }"

subsection \<open>crop\_image and save\_image\<close>

text \<open>The crop box after the lines under \<^verbatim>\<open># Ensure crop box is within image bounds\<close>.\<close>

definition crop_box :: "int \<Rightarrow> int \<Rightarrow> int \<Rightarrow> int \<Rightarrow> int \<Rightarrow> int \<Rightarrow> int \<times> int \<times> int \<times> int" where
  "crop_box img_width img_height x y width height =
     (max 0 x, max 0 y, min img_width (x + width), min img_height (y + height))"

definition crop_image ::
  "'img pil \<Rightarrow> filesystem \<Rightarrow> string \<Rightarrow> int \<Rightarrow> int \<Rightarrow> int \<Rightarrow> int \<Rightarrow> 'img option" where
  "crop_image L fs image_path x y width height =
     do {
       img \<leftarrow> image_open L fs image_path;
       pil_crop L img (crop_box (pil_width L img) (pil_height L img) x y width height)
     }"

text \<open>The defaults of \<^verbatim>\<open>save_image(image, filepath, format='JPEG', quality=95)\<close>.\<close>

definition default_format :: string where
  "default_format = ''JPEG''"

definition default_quality :: int where
  "default_quality = 95"

text \<open>The keyword arguments \<^verbatim>\<open>save_kwargs\<close> besides the format: quality and optimize.\<close>

definition save_kwargs :: "string \<Rightarrow> int \<Rightarrow> int option \<times> bool option" where
  "save_kwargs fmt quality =
     (if upper fmt \<in> {''JPEG'', ''WEBP''} then (Some quality, Some True)
      else if upper fmt = ''PNG'' then (None, Some True)
      else (None, None))"

text \<open>
  \<^verbatim>\<open>save_image\<close> in the steps that decide what a failure leaves in the folder. The
  source makes the image RGB for JPEG. \<^verbatim>\<open>image.save(filepath, ...)\<close> then looks the
  format up, which raises for an unknown name with the folder untouched; after that it
  opens the file for writing, which empties a file that exists, and runs the encoder.
  When the encoder raises, Pillow removes the file if this call created it, so a file
  that existed is left empty and a new one is left absent. The first component of the
  result says whether the call returned.
\<close>

definition save_image_prepare :: "'img pil \<Rightarrow> 'img \<Rightarrow> string \<Rightarrow> 'img option" where
  "save_image_prepare L img fmt =
     do {
       img1 \<leftarrow> (if upper fmt = ''JPEG'' \<and> pil_mode L img \<in> alpha_modes
                then composite_on_white L img else Some img);
       if pil_registered L (upper fmt) then Some img1 else None
     }"

definition save_image ::
  "'img pil \<Rightarrow> 'img \<Rightarrow> string \<Rightarrow> string \<Rightarrow> int \<Rightarrow> filesystem \<Rightarrow> bool \<times> filesystem" where
  "save_image L img filepath fmt quality fs =
     (case save_image_prepare L img fmt of
        None \<Rightarrow> (False, fs)
      | Some img1 \<Rightarrow>
          (case pil_save L img1 fmt (fst (save_kwargs fmt quality)) (snd (save_kwargs fmt quality)) of
             None \<Rightarrow> (False, if path_exists fs filepath then fs(filepath \<mapsto> []) else fs)
           | Some b \<Rightarrow> (True, fs(filepath \<mapsto> b))))"

text \<open>The bytes a \<^verbatim>\<open>save_image\<close> that returns has written.\<close>

definition save_image_bytes :: "'img pil \<Rightarrow> 'img \<Rightarrow> string \<Rightarrow> int \<Rightarrow> bytes option" where
  "save_image_bytes L img fmt quality =
     do {
       img1 \<leftarrow> save_image_prepare L img fmt;
       pil_save L img1 fmt (fst (save_kwargs fmt quality)) (snd (save_kwargs fmt quality))
     }"

section \<open>app.py\<close>

text \<open>
  A handler maps the request and the upload folder to a response and the folder
  afterwards. \<open>Error\<close> is an explicit \<^verbatim>\<open>return jsonify({'error': ...}), status\<close>;
  \<open>Error500\<close> is the \<^verbatim>\<open>except Exception\<close> branch, whose message is the text of
  the exception and is not modelled. Changes made to the folder before an exception
  stay, the emptied file of a save that failed among them.
\<close>

datatype response =
    UploadOk string string image_info
  | AdjustOk string image_info
  | CompressOk string image_info (resp_quality_used: int) (resp_new_filename: string) (resp_format: string)
  | ResetOk
  | SendFile string string bytes
  | Error nat string
  | Error500

fun status :: "response \<Rightarrow> nat" where
  "status (Error code msg) = code"
| "status Error500 = 500"
| "status r = 200"

text \<open>
  The JSON bodies, with the types the docstrings give. \<open>None\<close> is an absent key, for
  which \<^verbatim>\<open>data.get(key)\<close> is \<^verbatim>\<open>None\<close> and \<^verbatim>\<open>data.get(key, d)\<close> is \<open>d\<close>.
\<close>

record adjust_request =
  adj_filename :: "string option"
  adj_brightness :: "real option"
  adj_contrast :: "real option"
  adj_saturation :: "real option"
  adj_sharpness :: "real option"

record brightness_request =
  br_filename :: "string option"
  br_brightness :: "real option"


record crop_request =
  crop_filename :: "string option"
  crop_x :: "int option"
  crop_y :: "int option"
  crop_width :: "int option"
  crop_height :: "int option"

text \<open>\<^verbatim>\<open>if not filename\<close>: true for an absent key and for the empty string.\<close>

definition not_filename :: "string option \<Rightarrow> bool" where
  "not_filename f = (case f of None \<Rightarrow> True | Some s \<Rightarrow> s = [])"

text \<open>
  \<^verbatim>\<open>int(data.get(key, d))\<close> and \<^verbatim>\<open>float(data.get(key, d))\<close>. Without a default,
  \<^verbatim>\<open>int(data.get(key))\<close> is \<^verbatim>\<open>int(None)\<close> for an absent key, which raises TypeError.
\<close>

definition get_default :: "'a option \<Rightarrow> 'a \<Rightarrow> 'a" where
  "get_default v d = (case v of None \<Rightarrow> d | Some a \<Rightarrow> a)"

subsection \<open>upload\<close>

text \<open>
  A werkzeug \<^verbatim>\<open>FileStorage\<close>: the client's file name and a stream with a read
  position. \<^verbatim>\<open>file.save(path)\<close> copies the stream from its position to its end
  into the file; \<^verbatim>\<open>file.seek(0)\<close> rewinds it.
\<close>

record file_storage =
  upload_name :: string
  stream_data :: bytes
  stream_pos :: nat

definition storage_save :: "file_storage \<Rightarrow> string \<Rightarrow> filesystem \<Rightarrow> file_storage \<times> filesystem" where
  "storage_save file dst fs =
     (file\<lparr>stream_pos := max (stream_pos file) (length (stream_data file))\<rparr>,
      fs(dst \<mapsto> drop (stream_pos file) (stream_data file)))"

definition storage_seek :: "file_storage \<Rightarrow> nat \<Rightarrow> file_storage" where
  "storage_seek file n = file\<lparr>stream_pos := n\<rparr>"

text \<open>\<open>uuid4\<close> is the text of the identifier \<^verbatim>\<open>uuid.uuid4()\<close> draws for this request.\<close>

definition upload_image ::
  "'img pil \<Rightarrow> string \<Rightarrow> (string \<rightharpoonup> file_storage) \<Rightarrow> filesystem \<Rightarrow> response \<times> filesystem" where
  "upload_image L uuid4 files fs =
     (case files ''image'' of
        None \<Rightarrow> (Error 400 ''No file uploaded'', fs)
      | Some file \<Rightarrow>
          if upload_name file = [] then (Error 400 ''No file selected'', fs)
          else if \<not> allowed_file (upload_name file)
          then (Error 400 ''Invalid file type. Allowed: JPG, PNG, WEBP'', fs)
          else
            (case index1 (rsplit_dot (secure_filename L (upload_name file))) of
               None \<Rightarrow> (Error500, fs)
             | Some ext \<Rightarrow>
                 let unique_filename = uuid4 @ ''.'' @ lower ext;
                     filepath = path_join UPLOAD_FOLDER unique_filename;
                     (file1, fs1) = storage_save file filepath fs;
                     original_filepath = path_join UPLOAD_FOLDER (''original_'' @ unique_filename);
                     (file2, fs2) = storage_save (storage_seek file1 0) original_filepath fs1
                 in (case do {
                            img \<leftarrow> image_open L fs2 filepath;
                            img_info \<leftarrow> get_image_info L img;
                            preview \<leftarrow> image_to_base64 L img;
                            Some (UploadOk unique_filename preview img_info)
                          } of
                       None \<Rightarrow> (Error500, fs2)
                     | Some r \<Rightarrow> (r, fs2))))"

subsection \<open>preview-adjustments and adjust-brightness\<close>

text \<open>One slider of \<^verbatim>\<open>preview_adjustments\<close>: the enhancer runs unless the value is 1.0.\<close>

definition enhance_unless_one :: "('img \<Rightarrow> real \<Rightarrow> 'img option) \<Rightarrow> 'img \<Rightarrow> real \<Rightarrow> 'img option" where
  "enhance_unless_one enhancer img factor = (if factor \<noteq> 1 then enhancer img factor else Some img)"

definition adjusted_image :: "'img pil \<Rightarrow> adjust_request \<Rightarrow> filesystem \<Rightarrow> string \<Rightarrow> 'img option" where
  "adjusted_image L data fs original_filepath =
     do {
       img \<leftarrow> image_open L fs original_filepath;
       img \<leftarrow> to_rgb L img;
       img \<leftarrow> enhance_unless_one (pil_brightness L) img (get_default (adj_brightness data) 1);
       img \<leftarrow> enhance_unless_one (pil_contrast L) img (get_default (adj_contrast data) 1);
       img \<leftarrow> enhance_unless_one (pil_color L) img (get_default (adj_saturation data) 1);
       enhance_unless_one (pil_sharpness L) img (get_default (adj_sharpness data) 1)
     }"

text \<open>
  The tail the two adjustment handlers share after the image is computed: metadata,
  \<^verbatim>\<open>save_image\<close> with its defaults on the working copy, preview.
\<close>

definition save_and_preview ::
  "'img pil \<Rightarrow> 'img option \<Rightarrow> string \<Rightarrow> filesystem \<Rightarrow> response \<times> filesystem" where
  "save_and_preview L result filepath fs =
     (case result of
        None \<Rightarrow> (Error500, fs)
      | Some img \<Rightarrow>
          (case get_image_info L img of
             None \<Rightarrow> (Error500, fs)
           | Some img_info \<Rightarrow>
               (case save_image L img filepath default_format default_quality fs of
                  (False, fs1) \<Rightarrow> (Error500, fs1)
                | (True, fs1) \<Rightarrow>
                    (case image_to_base64 L img of
                       None \<Rightarrow> (Error500, fs1)
                     | Some preview \<Rightarrow> (AdjustOk preview img_info, fs1)))))"

definition preview_adjustments ::
  "'img pil \<Rightarrow> adjust_request \<Rightarrow> filesystem \<Rightarrow> response \<times> filesystem" where
  "preview_adjustments L data fs =
     (if not_filename (adj_filename data) then (Error 400 ''Filename required'', fs)
      else
        let filename = the (adj_filename data);
            original_filepath = path_join UPLOAD_FOLDER (''original_'' @ filename)
        in if \<not> path_exists fs original_filepath then (Error 404 ''Original file not found'', fs)
           else save_and_preview L (adjusted_image L data fs original_filepath)
                  (path_join UPLOAD_FOLDER filename) fs)"

definition brightness ::
  "'img pil \<Rightarrow> brightness_request \<Rightarrow> filesystem \<Rightarrow> response \<times> filesystem" where
  "brightness L data fs =
     (let brightness_factor = get_default (br_brightness data) 1 in
      if not_filename (br_filename data) then (Error 400 ''Filename required'', fs)
      else
        let filepath = path_join UPLOAD_FOLDER (the (br_filename data))
        in if \<not> path_exists fs filepath then (Error 404 ''File not found'', fs)
           else save_and_preview L (adjust_brightness L fs filepath brightness_factor) filepath fs)"

subsection \<open>compress\<close>




subsection \<open>crop\<close>

definition crop :: "'img pil \<Rightarrow> crop_request \<Rightarrow> filesystem \<Rightarrow> response \<times> filesystem" where
  "crop L data fs =
     (let x = get_default (crop_x data) 0;
          y = get_default (crop_y data) 0
      in
      case crop_width data of
        None \<Rightarrow> (Error500, fs)
      | Some width \<Rightarrow>
          (case crop_height data of
             None \<Rightarrow> (Error500, fs)
           | Some height \<Rightarrow>
               if not_filename (crop_filename data) then (Error 400 ''Filename required'', fs)
               else if width = 0 \<or> height = 0 then (Error 400 ''Width and height required'', fs)
               else
                 let filepath = path_join UPLOAD_FOLDER (the (crop_filename data))
                 in if \<not> path_exists fs filepath then (Error 404 ''File not found'', fs)
                    else
                      (case crop_image L fs filepath x y width height of
                         None \<Rightarrow> (Error500, fs)
                       | Some cropped_img \<Rightarrow>
                           (case save_image L cropped_img filepath default_format default_quality fs of
                              (False, fs1) \<Rightarrow> (Error500, fs1)
                            | (True, fs1) \<Rightarrow>
                                (case do {
                                        img_info \<leftarrow> get_image_info L cropped_img;
                                        preview \<leftarrow> image_to_base64 L cropped_img;
                                        Some (AdjustOk preview img_info)
                                      } of
                                   None \<Rightarrow> (Error500, fs1)
                                 | Some r \<Rightarrow> (r, fs1))))))"

subsection \<open>download and reset\<close>

text \<open>
  The file name of these two routes is a segment of the URL. \<^verbatim>\<open>os.path.abspath\<close>
  names the same file as the path it is given, so the folder is looked up at the path.
\<close>

definition download :: "string \<Rightarrow> filesystem \<Rightarrow> response" where
  "download filename fs =
     (let filepath = path_join UPLOAD_FOLDER filename
      in case fs filepath of
           None \<Rightarrow> Error 404 ''File not found''
         | Some content \<Rightarrow> SendFile filepath (''edited_'' @ filename) content)"

definition reset :: "string \<Rightarrow> filesystem \<Rightarrow> response \<times> filesystem" where
  "reset filename fs =
     (let filepath = path_join UPLOAD_FOLDER filename;
          original_filepath = path_join UPLOAD_FOLDER (''original_'' @ filename);
          fs1 = (if path_exists fs filepath then os_remove fs filepath else fs);
          fs2 = (if path_exists fs1 original_filepath then os_remove fs1 original_filepath else fs1)
      in (ResetOk, fs2))"

section \<open>Properties named by the specification\<close>

text \<open>
  ``The image encoded as JPEG at quality \<open>q\<close> has byte size at most \<open>max_size_kb\<close> KB'',
  with the encoder call and the comparison of the search loop.
\<close>

definition meets_target :: "'img pil \<Rightarrow> 'img \<Rightarrow> int \<Rightarrow> int \<Rightarrow> bool" where
  "meets_target L img max_size_kb q =
     (case encode_jpeg L img q of None \<Rightarrow> False | Some b \<Rightarrow> size_kb b \<le> of_int max_size_kb)"

text \<open>A box (left, upper, right, lower) that lies within the image, \<open>[0, width]\<close> by \<open>[0, height]\<close>.\<close>

definition box_within :: "int \<Rightarrow> int \<Rightarrow> int \<times> int \<times> int \<times> int \<Rightarrow> bool" where
  "box_within img_width img_height box =
     (case box of (x0, y0, x1, y1) \<Rightarrow>
        0 \<le> x0 \<and> x0 \<le> img_width \<and> 0 \<le> x1 \<and> x1 \<le> img_width \<and>
        0 \<le> y0 \<and> y0 \<le> img_height \<and> 0 \<le> y1 \<and> y1 \<le> img_height)"

section \<open>A small image library for concrete runs\<close>

text \<open>
  The theorems below hold for every library. Concrete runs need one: a raster is a width,
  a height and one luminance; a file is these three bytes, followed by 200 bytes of
  payload per unit of quality when a quality is given. Like Pillow, cropping refuses a
  box whose right edge is left of its left edge.
\<close>

datatype raster = Raster (r_width: int) (r_height: int) (r_lum: int)

definition raster_header :: "raster \<Rightarrow> bytes" where
  "raster_header r = [word_of_int (r_width r), word_of_int (r_height r), word_of_int (r_lum r)]"

definition test_pil :: "raster pil" where
  "test_pil =
     \<lparr>pil_open = (\<lambda>b. case b of a # b # c # rest \<Rightarrow> Some (Raster (uint a) (uint b) (uint c)) | _ \<Rightarrow> None),
      pil_mode = (\<lambda>r. ''RGB''),
      pil_width = r_width,
      pil_height = r_height,
      pil_format = (\<lambda>r. None),
      pil_new_rgb_white = (\<lambda>(w, h). Some (Raster w h 255)),
      pil_convert_rgba = Some,
      pil_split = (\<lambda>r. [r]),
      pil_paste = (\<lambda>background r mask. Some r),
      pil_brightness = (\<lambda>r f. Some (Raster (r_width r) (r_height r) (\<lfloor>of_int (r_lum r) * f\<rfloor>))),
      pil_contrast = (\<lambda>r f. Some r),
      pil_color = (\<lambda>r f. Some r),
      pil_sharpness = (\<lambda>r f. Some r),
      pil_crop = (\<lambda>r (x0, y0, x1, y1).
                    if x1 < x0 \<or> y1 < y0 then None
                    else Some (Raster (x1 - x0) (y1 - y0) (r_lum r))),
      pil_save = (\<lambda>r fmt quality optimize.
                    case quality of
                      None \<Rightarrow> Some (raster_header r)
                    | Some q \<Rightarrow> Some (raster_header r @ replicate (nat (200 * q)) 0)),
      pil_registered = (\<lambda>name. name \<in> {''JPEG'', ''PNG'', ''WEBP''}),
      b64encode = map (\<lambda>w. char_of (unat w)),
      secure_filename = (\<lambda>s. s)\<rparr>"

text \<open>A session \<^verbatim>\<open>a.png\<close> whose two files hold a 100 by 100 raster of luminance 1.\<close>

definition test_fs :: filesystem where
  "test_fs = [''static/uploads/a.png'' \<mapsto> [100, 100, 1],
              ''static/uploads/original_a.png'' \<mapsto> [100, 100, 1]]"

section \<open>Paths in the upload folder\<close>

lemma path_join_upload:
  "path_join UPLOAD_FOLDER f = (if f \<noteq> [] \<and> hd f = CHR ''/'' then f else ''static/uploads/'' @ f)"
  by (simp add: path_join_def UPLOAD_FOLDER_def)

lemma path_join_upload_inj:
  "path_join UPLOAD_FOLDER a = path_join UPLOAD_FOLDER b \<Longrightarrow> a = b"
  by (cases a; cases b) (auto simp add: path_join_upload split: if_splits)

lemma original_neq_current:
  "path_join UPLOAD_FOLDER (''original_'' @ f) \<noteq> path_join UPLOAD_FOLDER f"
proof
  assume "path_join UPLOAD_FOLDER (''original_'' @ f) = path_join UPLOAD_FOLDER f"
  then have "''original_'' @ f = f" by (rule path_join_upload_inj)
  then have "length (''original_'' @ f) = length f" by simp
  then show False by simp
qed

section \<open>Unfolding concrete runs\<close>

text \<open>The equations a concrete run of the handlers unfolds.\<close>

lemmas test_run_defs =
  test_pil_def test_fs_def raster_header_def encode_jpeg_def size_kb_def image_open_def
  to_rgb_def alpha_modes_def compress_image_def truthy_int_def

lemmas handler_run_defs =
  Let_def path_join_upload path_exists_def not_filename_def get_default_def
  save_and_preview_def save_image_def save_image_prepare_def save_image_bytes_def save_kwargs_def
  default_format_def default_quality_def upper_def char_upper_def
  get_image_info_def format_or_png_def image_to_base64_def

section \<open>The quality search of compress\_image\<close>

text \<open>The four ways through one round of the loop.\<close>

lemma quality_search_stop:
  "\<not> 10 < q \<Longrightarrow> quality_search L img T q = (Some q, [])"
  by (subst quality_search.simps) simp

lemma quality_search_raise:
  "10 < q \<Longrightarrow> encode_jpeg L img q = None \<Longrightarrow> quality_search L img T q = (None, [q])"
  by (subst quality_search.simps) simp

lemma quality_search_fit:
  "10 < q \<Longrightarrow> encode_jpeg L img q = Some b \<Longrightarrow> size_kb b \<le> of_int T \<Longrightarrow>
     quality_search L img T q = (Some q, [q])"
  by (subst quality_search.simps) simp

lemma quality_search_step:
  "10 < q \<Longrightarrow> encode_jpeg L img q = Some b \<Longrightarrow> \<not> size_kb b \<le> of_int T \<Longrightarrow>
     quality_search L img T q =
       (fst (quality_search L img T (q - 5)), q # snd (quality_search L img T (q - 5)))"
  by (subst quality_search.simps) (simp add: case_prod_beta)

lemma quality_search_length:
  "length (snd (quality_search L img T q)) \<le> nat ((q - 6) div 5)"
proof (induction L img T q rule: quality_search.induct)
  case (1 L img T q)
  show ?case
  proof (cases "10 < q")
    case False
    then show ?thesis by (simp add: quality_search_stop)
  next
    case True
    then have pos: "1 \<le> nat ((q - 6) div 5)" by simp
    show ?thesis
    proof (cases "encode_jpeg L img q")
      case None
      with True pos show ?thesis by (simp add: quality_search_raise)
    next
      case (Some b)
      show ?thesis
      proof (cases "size_kb b \<le> of_int T")
        case True
        with \<open>10 < q\<close> Some pos show ?thesis by (simp add: quality_search_fit)
      next
        case False
        have "length (snd (quality_search L img T (q - 5))) \<le> nat ((q - 5 - 6) div 5)"
          using "1.IH"[OF \<open>10 < q\<close> Some False] .
        moreover have "nat ((q - 5 - 6) div 5) + 1 = nat ((q - 6) div 5)"
          using \<open>10 < q\<close> by simp
        ultimately show ?thesis
          using \<open>10 < q\<close> Some False by (simp add: quality_search_step)
      qed
    qed
  qed
qed

lemma quality_search_nth:
  "i < length (snd (quality_search L img T q)) \<Longrightarrow>
     snd (quality_search L img T q) ! i = q - 5 * int i"
proof (induction L img T q arbitrary: i rule: quality_search.induct)
  case (1 L img T q)
  show ?case
  proof (cases "10 < q")
    case False
    with "1.prems" show ?thesis by (simp add: quality_search_stop)
  next
    case True
    show ?thesis
    proof (cases "encode_jpeg L img q")
      case None
      with True "1.prems" show ?thesis by (simp add: quality_search_raise)
    next
      case (Some b)
      show ?thesis
      proof (cases "size_kb b \<le> of_int T")
        case fits: True
        with True Some "1.prems" show ?thesis by (simp add: quality_search_fit)
      next
        case nofit: False
        have eq: "quality_search L img T q =
            (fst (quality_search L img T (q - 5)), q # snd (quality_search L img T (q - 5)))"
          using True Some nofit by (rule quality_search_step)
        show ?thesis
        proof (cases i)
          case 0
          then show ?thesis using eq by simp
        next
          case (Suc j)
          with "1.prems" eq have "j < length (snd (quality_search L img T (q - 5)))" by simp
          from "1.IH"[OF True Some nofit this]
          have "snd (quality_search L img T (q - 5)) ! j = q - 5 - 5 * int j" .
          with Suc eq show ?thesis by simp
        qed
      qed
    qed
  qed
qed

lemma quality_search_tried_above_floor:
  "c \<in> set (snd (quality_search L img T q)) \<Longrightarrow> 10 < c"
proof (induction L img T q rule: quality_search.induct)
  case (1 L img T q)
  show ?case
  proof (cases "10 < q")
    case False
    with "1.prems" show ?thesis by (simp add: quality_search_stop)
  next
    case True
    show ?thesis
    proof (cases "encode_jpeg L img q")
      case None
      with True "1.prems" show ?thesis by (simp add: quality_search_raise)
    next
      case (Some b)
      show ?thesis
      proof (cases "size_kb b \<le> of_int T")
        case fits: True
        with True Some "1.prems" show ?thesis by (simp add: quality_search_fit)
      next
        case nofit: False
        with True Some "1.prems" "1.IH"[OF True Some nofit] show ?thesis
          by (auto simp add: quality_search_step)
      qed
    qed
  qed
qed

lemma quality_search_returns:
  "\<forall>c. encode_jpeg L img c \<noteq> None \<Longrightarrow> fst (quality_search L img T q) \<noteq> None"
proof (induction L img T q rule: quality_search.induct)
  case (1 L img T q)
  show ?case
  proof (cases "10 < q")
    case False
    then show ?thesis by (simp add: quality_search_stop)
  next
    case True
    from "1.prems" obtain b where Some: "encode_jpeg L img q = Some b" by auto
    show ?thesis
    proof (cases "size_kb b \<le> of_int T")
      case fits: True
      with True Some show ?thesis by (simp add: quality_search_fit)
    next
      case nofit: False
      with True Some "1.prems" "1.IH"[OF True Some nofit] show ?thesis
        by (simp add: quality_search_step)
    qed
  qed
qed

lemma quality_search_result:
  "fst (quality_search L img T q) = Some r \<Longrightarrow>
     r \<le> q \<and> (q - r) mod 5 = 0 \<and>
     ((10 < r \<and> meets_target L img T r) \<or> (r \<le> 10 \<and> (10 < q \<longrightarrow> 5 < r)))"
proof (induction L img T q rule: quality_search.induct)
  case (1 L img T q)
  show ?case
  proof (cases "10 < q")
    case False
    with "1.prems" show ?thesis by (simp add: quality_search_stop)
  next
    case True
    show ?thesis
    proof (cases "encode_jpeg L img q")
      case None
      with True "1.prems" show ?thesis by (simp add: quality_search_raise)
    next
      case (Some b)
      show ?thesis
      proof (cases "size_kb b \<le> of_int T")
        case fits: True
        with True Some "1.prems" show ?thesis
          by (simp add: quality_search_fit meets_target_def)
      next
        case nofit: False
        from "1.prems" True Some nofit
        have "fst (quality_search L img T (q - 5)) = Some r" by (simp add: quality_search_step)
        from "1.IH"[OF True Some nofit this]
        have IH: "r \<le> q - 5" "(q - 5 - r) mod 5 = 0"
          "(10 < r \<and> meets_target L img T r) \<or> (r \<le> 10 \<and> (10 < q - 5 \<longrightarrow> 5 < r))"
          by simp_all
        have "5 < r"
        proof (cases "10 < q - 5")
          case True
          with IH(3) show ?thesis by auto
        next
          case False
          then have "fst (quality_search L img T (q - 5)) = Some (q - 5)"
            by (simp add: quality_search_stop)
          with \<open>fst (quality_search L img T (q - 5)) = Some r\<close> have "r = q - 5" by simp
          with \<open>10 < q\<close> show ?thesis by simp
        qed
        moreover have "(q - r) mod 5 = 0" using IH(2) by presburger
        ultimately show ?thesis using IH(1,3) by auto
      qed
    qed
  qed
qed

text \<open>
  Claim C7, as the code has it. The loop of size-targeted compression ends for every
  starting quality and every target (\<open>quality_search\<close> is a total function). The encoder
  is called with the qualities \<open>Q\<close>, \<open>Q - 5\<close>, \<open>Q - 10\<close>, ..., all above the floor of 10, so
  it is called at most \<open>(Q - 6) div 5\<close> times, the number of steps of 5 from \<open>Q\<close> down to
  the floor: at most 15 times from the default 85 or below, at most 18 times from 100
  or below. While the encoder does not raise, the loop returns a quality.
\<close>

theorem quality_search_bounded:
  "length (snd (quality_search L img T Q)) \<le> nat ((Q - 6) div 5) \<and>
   (\<forall>i < length (snd (quality_search L img T Q)).
      snd (quality_search L img T Q) ! i = Q - 5 * int i \<and>
      10 < snd (quality_search L img T Q) ! i) \<and>
   (Q \<le> 85 \<longrightarrow> length (snd (quality_search L img T Q)) \<le> 15) \<and>
   (Q \<le> 100 \<longrightarrow> length (snd (quality_search L img T Q)) \<le> 18) \<and>
   ((\<forall>c. encode_jpeg L img c \<noteq> None) \<longrightarrow> fst (quality_search L img T Q) \<noteq> None)"
proof (intro conjI allI impI)
  let ?tried = "snd (quality_search L img T Q)"
  show len: "length ?tried \<le> nat ((Q - 6) div 5)" by (rule quality_search_length)
  {
    assume "Q \<le> 85"
    then have "nat ((Q - 6) div 5) \<le> 15" by simp
    with len show "length ?tried \<le> 15" by simp
  }
  {
    assume "Q \<le> 100"
    then have "nat ((Q - 6) div 5) \<le> 18" by simp
    with len show "length ?tried \<le> 18" by simp
  }
  {
    fix i assume i: "i < length ?tried"
    then show "?tried ! i = Q - 5 * int i" by (rule quality_search_nth)
    from i have "?tried ! i \<in> set ?tried" by simp
    then show "10 < ?tried ! i" by (rule quality_search_tried_above_floor)
  }
  {
    assume "\<forall>c. encode_jpeg L img c \<noteq> None"
    then show "fst (quality_search L img T Q) \<noteq> None" by (rule quality_search_returns)
  }
qed

theorem quality_search_bounded_witness:
  "quality_search test_pil (Raster 100 100 1) 1 85 =
     (Some 10, [85, 80, 75, 70, 65, 60, 55, 50, 45, 40, 35, 30, 25, 20, 15]) \<and>
   (85::int) \<le> 85 \<and> (85::int) \<le> 100 \<and>
   (\<forall>c. encode_jpeg test_pil (Raster 100 100 1) c \<noteq> None) \<and>
   length (snd (quality_search test_pil (Raster 100 100 1) 1 85)) \<le> 15 \<and>
   snd (quality_search test_pil (Raster 100 100 1) 1 85) ! 14 = 85 - 5 * 14 \<and>
   fst (quality_search test_pil (Raster 100 100 1) 1 85) \<noteq> None"
proof -
  have run: "quality_search test_pil (Raster 100 100 1) 1 85 =
     (Some 10, [85, 80, 75, 70, 65, 60, 55, 50, 45, 40, 35, 30, 25, 20, 15])"
    by (simp add: quality_search.simps test_run_defs)
  have enc: "\<forall>c. encode_jpeg test_pil (Raster 100 100 1) c \<noteq> None"
    by (simp add: test_run_defs)
  from quality_search_bounded[of test_pil "Raster 100 100 1" 1 85] run enc
  show ?thesis by simp
qed

text \<open>
  The claim gives about 15 encoder calls for every starting quality. The handler passes
  \<^verbatim>\<open>int(data.get('quality', 85))\<close> on as it is: from 1000, with a target no encoding
  meets, the encoder runs 198 times.
\<close>

theorem quality_search_iterations_counterexample:
  "length (snd (quality_search test_pil (Raster 100 100 1) 1 1000)) = 198 \<and>
   \<not> length (snd (quality_search test_pil (Raster 100 100 1) 1 1000)) \<le> 15"
  by (simp add: quality_search.simps test_run_defs)

text \<open>
  Claim C1, as the code has it. For a target other than 0, a quality \<open>q\<close> that
  \<^verbatim>\<open>compress_image\<close> returns is at most the requested one, and either the JPEG
  encoding at \<open>q\<close> is within the target or \<open>q\<close> is at or below the floor of 10; \<open>q\<close> is the
  floor itself when the requested quality is a multiple of 5 that is at least 10.
\<close>

theorem compress_image_target:
  assumes "compress_image L fs image_path Q (Some T) = Some (img, q)" and "T \<noteq> 0"
  shows "q \<le> Q \<and> (meets_target L img T q \<or> (q \<le> 10 \<and> (10 \<le> Q \<and> Q mod 5 = 0 \<longrightarrow> q = 10)))"
proof -
  from assms have run: "fst (quality_search L img T Q) = Some q"
    by (auto simp add: compress_image_def truthy_int_def split: bind_splits option.splits)
  from quality_search_result[OF this]
  have r: "q \<le> Q" "(Q - q) mod 5 = 0"
    "(10 < q \<and> meets_target L img T q) \<or> (q \<le> 10 \<and> (10 < Q \<longrightarrow> 5 < q))"
    by simp_all
  have "q = 10" if floor: "q \<le> 10" "10 < Q \<longrightarrow> 5 < q" and start: "10 \<le> Q" "Q mod 5 = 0"
  proof (cases "10 < Q")
    case True
    with floor have "5 < q" by simp
    with floor(1) start(2) r(2) show ?thesis by presburger
  next
    case False
    then have "fst (quality_search L img T Q) = Some Q" by (simp add: quality_search_stop)
    with run False start(1) show ?thesis by simp
  qed
  with r show ?thesis by auto
qed

theorem compress_image_target_witness:
  "compress_image test_pil test_fs ''static/uploads/a.png'' 85 (Some 10) = Some (Raster 100 100 1, 50) \<and>
   (10::int) \<noteq> 0 \<and> meets_target test_pil (Raster 100 100 1) 10 50 \<and>
   compress_image test_pil test_fs ''static/uploads/a.png'' 85 (Some 1) = Some (Raster 100 100 1, 10) \<and>
   (1::int) \<noteq> 0 \<and> \<not> meets_target test_pil (Raster 100 100 1) 1 10"
proof -
  have run: "compress_image test_pil test_fs ''static/uploads/a.png'' 85 (Some 10) =
      Some (Raster 100 100 1, 50)"
    by (simp add: quality_search.simps test_run_defs)
  have floor: "compress_image test_pil test_fs ''static/uploads/a.png'' 85 (Some 1) =
      Some (Raster 100 100 1, 10)"
    by (simp add: quality_search.simps test_run_defs)
  have over: "\<not> meets_target test_pil (Raster 100 100 1) 1 10"
    by (simp add: meets_target_def test_run_defs)
  from compress_image_target[OF run] compress_image_target[OF floor] run floor over
  show ?thesis by simp
qed

text \<open>
  The claim lets the search end at 10 only. From 12 the loop encodes once, at 12, steps
  to 7 and leaves: 7 is returned, and the encoding at 7 (1403 bytes) is over the target
  of 1 KB.
\<close>

theorem compress_image_floor_counterexample:
  "compress_image test_pil test_fs ''static/uploads/a.png'' 12 (Some 1) = Some (Raster 100 100 1, 7) \<and>
   \<not> (meets_target test_pil (Raster 100 100 1) 1 7 \<or> (7::int) = 10)"
  by (simp add: quality_search.simps test_run_defs meets_target_def)

section \<open>Adjustments\<close>

text \<open>What \<^verbatim>\<open>save_image\<close> does to the folder, and when it returns.\<close>

lemma save_image_returns:
  "save_image L img p fmt q fs = (True, fs') \<longleftrightarrow>
     (\<exists>b. save_image_bytes L img fmt q = Some b \<and> fs' = fs(p \<mapsto> b))"
  by (auto simp add: save_image_def save_image_bytes_def split: option.splits)

lemma save_image_flag:
  "fst (save_image L img p fmt q fs) \<longleftrightarrow> save_image_bytes L img fmt q \<noteq> None"
  by (auto simp add: save_image_def save_image_bytes_def split: option.splits)

lemma save_image_frame:
  "p' \<noteq> p \<Longrightarrow> snd (save_image L img p fmt q fs) p' = fs p'"
  by (simp add: save_image_def split: option.splits)

lemma save_image_raised:
  "\<not> fst (save_image L img p fmt q fs) \<Longrightarrow>
     snd (save_image L img p fmt q fs) p = fs p \<or> snd (save_image L img p fmt q fs) p = Some []"
  by (simp add: save_image_def path_exists_def split: option.splits)

lemma save_and_preview_response:
  "fst (save_and_preview L res p fs1) = fst (save_and_preview L res p fs2)"
proof (cases res)
  case None
  then show ?thesis by (simp add: save_and_preview_def)
next
  case (Some img)
  have flag: "fst (save_image L img p default_format default_quality fs1) =
              fst (save_image L img p default_format default_quality fs2)"
    by (simp add: save_image_flag)
  obtain ok1 g1 where s1: "save_image L img p default_format default_quality fs1 = (ok1, g1)"
    by force
  obtain ok2 g2 where s2: "save_image L img p default_format default_quality fs2 = (ok2, g2)"
    by force
  from flag s1 s2 have "ok1 = ok2" by simp
  with Some s1 s2 show ?thesis
    by (simp add: save_and_preview_def split: option.splits bool.splits)
qed

lemma save_and_preview_frame:
  "p' \<noteq> p \<Longrightarrow> snd (save_and_preview L res p fs) p' = fs p'"
proof (cases res)
  case None
  then show ?thesis by (simp add: save_and_preview_def)
next
  case (Some img)
  assume neq: "p' \<noteq> p"
  obtain ok g where s: "save_image L img p default_format default_quality fs = (ok, g)"
    by force
  from save_image_frame[OF neq, of L img default_format default_quality fs] s
  have "g p' = fs p'" by simp
  with Some s show ?thesis
    by (simp add: save_and_preview_def split: option.splits bool.splits)
qed

lemma save_and_preview_success:
  assumes "status (fst (save_and_preview L res p fs)) = 200"
  shows "\<exists>img b. res = Some img \<and> save_image_bytes L img default_format default_quality = Some b \<and>
      snd (save_and_preview L res p fs) = fs(p \<mapsto> b)"
proof (cases res)
  case None
  with assms show ?thesis by (simp add: save_and_preview_def)
next
  case (Some img)
  obtain ok g where s: "save_image L img p default_format default_quality fs = (ok, g)"
    by force
  from assms Some s have ok: "ok" and g: "snd (save_and_preview L res p fs) = g"
    by (auto simp add: save_and_preview_def split: option.splits bool.splits)
  from s ok obtain b where "save_image_bytes L img default_format default_quality = Some b"
    "g = fs(p \<mapsto> b)"
    by (auto simp add: save_image_returns)
  with Some g show ?thesis by simp
qed

lemma adjusted_image_original:
  "fs1 p = fs2 p \<Longrightarrow> adjusted_image L d fs1 p = adjusted_image L d fs2 p"
  by (simp add: adjusted_image_def image_open_def)

lemma preview_adjustments_frame:
  "p \<noteq> path_join UPLOAD_FOLDER (the (adj_filename A)) \<Longrightarrow>
     snd (preview_adjustments L A fs) p = fs p"
  by (simp add: preview_adjustments_def Let_def save_and_preview_frame)

lemma preview_adjustments_reads_original:
  assumes "fs1 (path_join UPLOAD_FOLDER (''original_'' @ the (adj_filename B))) =
           fs2 (path_join UPLOAD_FOLDER (''original_'' @ the (adj_filename B)))"
  shows "fst (preview_adjustments L B fs1) = fst (preview_adjustments L B fs2)"
proof -
  let ?o = "path_join UPLOAD_FOLDER (''original_'' @ the (adj_filename B))"
  from assms have "adjusted_image L B fs1 ?o = adjusted_image L B fs2 ?o"
    by (rule adjusted_image_original)
  with assms show ?thesis
    using save_and_preview_response[of L "adjusted_image L B fs2 ?o" _ fs1 fs2]
    by (simp add: preview_adjustments_def Let_def path_exists_def)
qed

lemma preview_adjustments_again:
  assumes "adj_filename A = adj_filename B"
  shows "fst (preview_adjustments L B (snd (preview_adjustments L A fs))) =
         fst (preview_adjustments L B fs)"
proof (rule preview_adjustments_reads_original)
  show "snd (preview_adjustments L A fs) (path_join UPLOAD_FOLDER (''original_'' @ the (adj_filename B))) =
        fs (path_join UPLOAD_FOLDER (''original_'' @ the (adj_filename B)))"
    using assms original_neq_current[of "the (adj_filename B)"]
    by (intro preview_adjustments_frame) simp
qed

lemma preview_adjustments_success:
  assumes "status (fst (preview_adjustments L B fs)) = 200"
  shows "\<exists>img b. adjusted_image L B fs (path_join UPLOAD_FOLDER (''original_'' @ the (adj_filename B))) = Some img \<and>
           save_image_bytes L img default_format default_quality = Some b \<and>
           snd (preview_adjustments L B fs) = fs(path_join UPLOAD_FOLDER (the (adj_filename B)) \<mapsto> b)"
proof -
  let ?o = "path_join UPLOAD_FOLDER (''original_'' @ the (adj_filename B))"
  let ?c = "path_join UPLOAD_FOLDER (the (adj_filename B))"
  from assms have run: "preview_adjustments L B fs = save_and_preview L (adjusted_image L B fs ?o) ?c fs"
    by (auto simp add: preview_adjustments_def Let_def split: if_splits)
  with assms have "status (fst (save_and_preview L (adjusted_image L B fs ?o) ?c fs)) = 200" by simp
  from save_and_preview_success[OF this] run show ?thesis by simp
qed

text \<open>
  Claim C2, as the code has it. For two requests to \<^verbatim>\<open>preview-adjustments\<close> on one
  session, the answer to \<open>B\<close> after \<open>A\<close> is the answer to \<open>B\<close> alone, and when \<open>B\<close> succeeds
  the upload folder, with the working copy in it, is the same as after \<open>B\<close> alone: the
  handler reads the original, which it never writes.
\<close>

theorem adjustments_rebased_on_original:
  assumes "adj_filename A = adj_filename B"
  shows "fst (preview_adjustments L B (snd (preview_adjustments L A fs))) =
           fst (preview_adjustments L B fs) \<and>
         (status (fst (preview_adjustments L B fs)) = 200 \<longrightarrow>
            snd (preview_adjustments L B (snd (preview_adjustments L A fs))) =
              snd (preview_adjustments L B fs))"
proof (intro conjI impI)
  let ?fs1 = "snd (preview_adjustments L A fs)"
  let ?o = "path_join UPLOAD_FOLDER (''original_'' @ the (adj_filename B))"
  let ?c = "path_join UPLOAD_FOLDER (the (adj_filename B))"
  show resp: "fst (preview_adjustments L B ?fs1) = fst (preview_adjustments L B fs)"
    using assms by (rule preview_adjustments_again)
  assume ok: "status (fst (preview_adjustments L B fs)) = 200"
  then obtain img b where B: "adjusted_image L B fs ?o = Some img"
      "save_image_bytes L img default_format default_quality = Some b"
      "snd (preview_adjustments L B fs) = fs(?c \<mapsto> b)"
    using preview_adjustments_success by blast
  from ok resp have "status (fst (preview_adjustments L B ?fs1)) = 200" by simp
  then obtain img' b' where B': "adjusted_image L B ?fs1 ?o = Some img'"
      "save_image_bytes L img' default_format default_quality = Some b'"
      "snd (preview_adjustments L B ?fs1) = ?fs1(?c \<mapsto> b')"
    using preview_adjustments_success by blast
  have "?fs1 ?o = fs ?o"
    using assms original_neq_current[of "the (adj_filename B)"]
    by (intro preview_adjustments_frame) simp
  then have "adjusted_image L B ?fs1 ?o = adjusted_image L B fs ?o"
    by (rule adjusted_image_original)
  with B B' have "b' = b" by simp
  moreover have "?fs1(?c \<mapsto> b) = fs(?c \<mapsto> b)"
  proof
    fix p
    show "(?fs1(?c \<mapsto> b)) p = (fs(?c \<mapsto> b)) p"
      using assms preview_adjustments_frame[of p A L fs] by (cases "p = ?c") simp_all
  qed
  ultimately show "snd (preview_adjustments L B ?fs1) = snd (preview_adjustments L B fs)"
    using B(3) B'(3) by simp
qed

theorem adjustments_rebased_on_original_witness:
  "adj_filename \<lparr>adj_filename = Some ''a.png'', adj_brightness = Some 2, adj_contrast = None,
       adj_saturation = None, adj_sharpness = None\<rparr> =
   adj_filename \<lparr>adj_filename = Some ''a.png'', adj_brightness = Some 3, adj_contrast = None,
       adj_saturation = None, adj_sharpness = None\<rparr> \<and>
   status (fst (preview_adjustments test_pil
     \<lparr>adj_filename = Some ''a.png'', adj_brightness = Some 3, adj_contrast = None,
       adj_saturation = None, adj_sharpness = None\<rparr> test_fs)) = 200 \<and>
   snd (preview_adjustments test_pil
     \<lparr>adj_filename = Some ''a.png'', adj_brightness = Some 3, adj_contrast = None,
       adj_saturation = None, adj_sharpness = None\<rparr>
     (snd (preview_adjustments test_pil
       \<lparr>adj_filename = Some ''a.png'', adj_brightness = Some 2, adj_contrast = None,
         adj_saturation = None, adj_sharpness = None\<rparr> test_fs))) =
   snd (preview_adjustments test_pil
     \<lparr>adj_filename = Some ''a.png'', adj_brightness = Some 3, adj_contrast = None,
       adj_saturation = None, adj_sharpness = None\<rparr> test_fs)"
proof -
  let ?A = "\<lparr>adj_filename = Some ''a.png'', adj_brightness = Some 2, adj_contrast = None,
       adj_saturation = None, adj_sharpness = None\<rparr>"
  let ?B = "\<lparr>adj_filename = Some ''a.png'', adj_brightness = Some 3, adj_contrast = None,
       adj_saturation = None, adj_sharpness = None\<rparr>"
  have same: "adj_filename ?A = adj_filename ?B" by simp
  have ok: "status (fst (preview_adjustments test_pil ?B test_fs)) = 200"
    by (simp add: preview_adjustments_def adjusted_image_def enhance_unless_one_def
        test_run_defs handler_run_defs)
  from adjustments_rebased_on_original[OF same, of test_pil test_fs] ok same
  show ?thesis by simp
qed

text \<open>
  The claim includes \<^verbatim>\<open>adjust-brightness\<close>. That handler opens the working copy and
  overwrites it: brightness 2 and then brightness 3 leave luminance 6 there, brightness 3
  alone leaves luminance 3.
\<close>

theorem brightness_compounds_counterexample:
  "snd (brightness test_pil \<lparr>br_filename = Some ''a.png'', br_brightness = Some 3\<rparr>
     (snd (brightness test_pil \<lparr>br_filename = Some ''a.png'', br_brightness = Some 2\<rparr> test_fs)))
     ''static/uploads/a.png'' = Some ([100, 100, 6] @ replicate 19000 0) \<and>
   snd (brightness test_pil \<lparr>br_filename = Some ''a.png'', br_brightness = Some 3\<rparr> test_fs)
     ''static/uploads/a.png'' = Some ([100, 100, 3] @ replicate 19000 0) \<and>
   snd (brightness test_pil \<lparr>br_filename = Some ''a.png'', br_brightness = Some 3\<rparr>
     (snd (brightness test_pil \<lparr>br_filename = Some ''a.png'', br_brightness = Some 2\<rparr> test_fs)))
     ''static/uploads/a.png'' \<noteq>
   snd (brightness test_pil \<lparr>br_filename = Some ''a.png'', br_brightness = Some 3\<rparr> test_fs)
     ''static/uploads/a.png''"
  by (simp add: brightness_def adjust_brightness_def test_run_defs handler_run_defs)

text \<open>
  Claim C5. Two calls of \<^verbatim>\<open>preview-adjustments\<close> in a row with the same parameters
  give the same response, preview and metadata included: the write of the working copy
  by the first call does not reach the original the second call reads.
\<close>

theorem preview_adjustments_idempotent:
  "fst (preview_adjustments L data (snd (preview_adjustments L data fs))) =
   fst (preview_adjustments L data fs)"
  by (rule preview_adjustments_again) simp

section \<open>Compression without a target\<close>











lemma save_image_bytes_ignores_quality:
  "upper fmt \<noteq> ''JPEG'' \<Longrightarrow> upper fmt \<noteq> ''WEBP'' \<Longrightarrow>
     save_image_bytes L img fmt q = save_image_bytes L img fmt q'"
  by (simp add: save_image_bytes_def save_kwargs_def)




section \<open>Crop\<close>

text \<open>A crop request whose width or height is 0 is answered with status 400, the folder untouched.\<close>

lemma crop_zero_size_is_400:
  assumes "crop_width data = Some w" and "crop_height data = Some h" and "w = 0 \<or> h = 0"
  shows "status (fst (crop L data fs)) = 400 \<and> snd (crop L data fs) = fs"
  using assms by (auto simp add: crop_def Let_def)

text \<open>
  Claim C3 at the input that breaks it. A crop request without the key \<^verbatim>\<open>width\<close>:
  \<^verbatim>\<open>int(data.get('width'))\<close> is \<^verbatim>\<open>int(None)\<close>, which raises before the test
  \<^verbatim>\<open>if not width or not height\<close> is reached, so the handler answers 500 and not the
  400 of its message \<^verbatim>\<open>Width and height required\<close>.
\<close>

theorem crop_missing_width_is_500:
  "crop L \<lparr>crop_filename = Some ''a.png'', crop_x = Some 0, crop_y = Some 0,
            crop_width = None, crop_height = Some 10\<rparr> fs = (Error500, fs) \<and>
   status (fst (crop L \<lparr>crop_filename = Some ''a.png'', crop_x = Some 0, crop_y = Some 0,
            crop_width = None, crop_height = Some 10\<rparr> fs)) = 500"
  by (simp add: crop_def)

text \<open>
  The box the source computes lies within the image when the rectangle starts at or
  before the right and lower edge and ends at or after the left and upper edge.
\<close>

lemma crop_box_within_image:
  assumes "0 \<le> W" "0 \<le> H" "x \<le> W" "y \<le> H" "0 \<le> x + w" "0 \<le> y + h"
  shows "box_within W H (crop_box W H x y w h)"
  using assms by (simp add: box_within_def crop_box_def)

text \<open>
  Claim C4 at the input that breaks it. On a 100 by 100 image the rectangle
  (1000, 0, 10, 10) gives the box (1000, 0, 100, 10): the left edge is clamped from below
  only and stays at 1000, outside the image and right of the right edge, and this box
  is what \<^verbatim>\<open>img.crop\<close> receives.
\<close>

theorem crop_box_outside_image:
  "crop_box 100 100 1000 0 10 10 = (1000, 0, 100, 10) \<and>
   \<not> box_within 100 100 (crop_box 100 100 1000 0 10 10) \<and>
   crop_image test_pil test_fs ''static/uploads/a.png'' 1000 0 10 10 =
     pil_crop test_pil (Raster 100 100 1) (1000, 0, 100, 10)"
  by (simp add: crop_box_def box_within_def crop_image_def test_run_defs)

section \<open>The working copy after crop and adjust-brightness\<close>

lemma upper_JPEG: "upper ''JPEG'' = ''JPEG''"
  by (simp add: upper_def char_upper_def)

lemma save_image_bytes_default:
  "save_image_bytes L img default_format default_quality =
     Option.bind (to_rgb L img)
       (\<lambda>rgb. if pil_registered L ''JPEG''
               then pil_save L rgb ''JPEG'' (Some 95) (Some True) else None)"
  by (simp add: save_image_bytes_def save_image_prepare_def save_kwargs_def default_format_def
      default_quality_def upper_JPEG to_rgb_def split: bind_splits)

lemma save_image_default:
  "save_image L img p default_format default_quality fs = (True, fs') \<Longrightarrow>
     \<exists>rgb b. to_rgb L img = Some rgb \<and> pil_save L rgb ''JPEG'' (Some 95) (Some True) = Some b \<and>
       fs' = fs(p \<mapsto> b)"
  by (auto simp add: save_image_returns save_image_bytes_default split: bind_splits if_splits)

text \<open>
  Claim C9. After a crop and after an adjust-brightness that succeed, the working copy
  holds the image, made RGB, encoded by the library as JPEG with quality 95 and
  optimize set: the defaults of \<^verbatim>\<open>save_image\<close>, whatever the extension of the file
  name. The run below is on \<^verbatim>\<open>a.png\<close>.
\<close>

theorem working_copy_saved_as_jpeg_95:
  "(crop L data fs = (r, fs') \<and> status r = 200 \<longrightarrow>
      (\<exists>img rgb b.
         crop_image L fs (current_path (the (crop_filename data)))
           (get_default (crop_x data) 0) (get_default (crop_y data) 0)
           (the (crop_width data)) (the (crop_height data)) = Some img \<and>
         to_rgb L img = Some rgb \<and>
         pil_save L rgb ''JPEG'' (Some 95) (Some True) = Some b \<and>
         fs' = fs(current_path (the (crop_filename data)) \<mapsto> b))) \<and>
   (brightness L bdata fs = (r, fs') \<and> status r = 200 \<longrightarrow>
      (\<exists>img rgb b.
         adjust_brightness L fs (current_path (the (br_filename bdata)))
           (get_default (br_brightness bdata) 1) = Some img \<and>
         to_rgb L img = Some rgb \<and>
         pil_save L rgb ''JPEG'' (Some 95) (Some True) = Some b \<and>
         fs' = fs(current_path (the (br_filename bdata)) \<mapsto> b)))"
proof (intro conjI impI)
  assume run: "crop L data fs = (r, fs') \<and> status r = 200"
  let ?p = "current_path (the (crop_filename data))"
  let ?img = "crop_image L fs ?p (get_default (crop_x data) 0) (get_default (crop_y data) 0)
           (the (crop_width data)) (the (crop_height data))"
  from run obtain img where img: "?img = Some img"
    and saved: "save_image L img ?p default_format default_quality fs = (True, fs')"
    by (auto simp add: crop_def Let_def current_path_def
        split: option.splits if_splits bind_splits prod.splits bool.splits)
  from save_image_default[OF saved] img
  show "\<exists>img rgb b. ?img = Some img \<and> to_rgb L img = Some rgb \<and>
         pil_save L rgb ''JPEG'' (Some 95) (Some True) = Some b \<and> fs' = fs(?p \<mapsto> b)"
    by blast
next
  assume run: "brightness L bdata fs = (r, fs') \<and> status r = 200"
  let ?p = "current_path (the (br_filename bdata))"
  let ?img = "adjust_brightness L fs ?p (get_default (br_brightness bdata) 1)"
  from run obtain img where img: "?img = Some img"
    and saved: "save_image L img ?p default_format default_quality fs = (True, fs')"
    by (auto simp add: brightness_def Let_def current_path_def save_and_preview_def
        split: option.splits if_splits bind_splits prod.splits bool.splits)
  from save_image_default[OF saved] img
  show "\<exists>img rgb b. ?img = Some img \<and> to_rgb L img = Some rgb \<and>
         pil_save L rgb ''JPEG'' (Some 95) (Some True) = Some b \<and> fs' = fs(?p \<mapsto> b)"
    by blast
qed

theorem working_copy_saved_as_jpeg_95_witness:
  "status (fst (crop test_pil \<lparr>crop_filename = Some ''a.png'', crop_x = Some 10, crop_y = Some 0,
       crop_width = Some 20, crop_height = Some 30\<rparr> test_fs)) = 200 \<and>
   snd (crop test_pil \<lparr>crop_filename = Some ''a.png'', crop_x = Some 10, crop_y = Some 0,
       crop_width = Some 20, crop_height = Some 30\<rparr> test_fs) ''static/uploads/a.png'' =
     pil_save test_pil (Raster 20 30 1) ''JPEG'' (Some 95) (Some True) \<and>
   status (fst (brightness test_pil \<lparr>br_filename = Some ''a.png'', br_brightness = Some 2\<rparr>
       test_fs)) = 200 \<and>
   snd (brightness test_pil \<lparr>br_filename = Some ''a.png'', br_brightness = Some 2\<rparr> test_fs)
       ''static/uploads/a.png'' =
     pil_save test_pil (Raster 100 100 2) ''JPEG'' (Some 95) (Some True)"
proof -
  let ?c = "\<lparr>crop_filename = Some ''a.png'', crop_x = Some 10, crop_y = Some 0,
       crop_width = Some 20, crop_height = Some 30\<rparr>"
  let ?b = "\<lparr>br_filename = Some ''a.png'', br_brightness = Some 2\<rparr>"
  have okc: "status (fst (crop test_pil ?c test_fs)) = 200"
    by (simp add: crop_def crop_image_def crop_box_def test_run_defs handler_run_defs)
  have okb: "status (fst (brightness test_pil ?b test_fs)) = 200"
    by (simp add: brightness_def adjust_brightness_def test_run_defs handler_run_defs)
  have runc: "crop test_pil ?c test_fs = (fst (crop test_pil ?c test_fs), snd (crop test_pil ?c test_fs))"
    by simp
  have runb: "brightness test_pil ?b test_fs =
      (fst (brightness test_pil ?b test_fs), snd (brightness test_pil ?b test_fs))"
    by simp
  from working_copy_saved_as_jpeg_95[of test_pil ?c test_fs "fst (crop test_pil ?c test_fs)"
      "snd (crop test_pil ?c test_fs)" ?b] runc okc
  have c: "snd (crop test_pil ?c test_fs) ''static/uploads/a.png'' =
      pil_save test_pil (Raster 20 30 1) ''JPEG'' (Some 95) (Some True)"
    by (auto simp add: current_path_def crop_image_def crop_box_def test_run_defs handler_run_defs)
  from working_copy_saved_as_jpeg_95[of test_pil ?c test_fs "fst (brightness test_pil ?b test_fs)"
      "snd (brightness test_pil ?b test_fs)" ?b] runb okb
  have b: "snd (brightness test_pil ?b test_fs) ''static/uploads/a.png'' =
      pil_save test_pil (Raster 100 100 2) ''JPEG'' (Some 95) (Some True)"
    by (auto simp add: current_path_def adjust_brightness_def test_run_defs handler_run_defs)
  from okc okb c b show ?thesis by blast
qed

section \<open>Upload\<close>

text \<open>
  Claim C10. After a successful upload, the working copy and the original of the new
  session both hold the uploaded bytes. Werkzeug hands the handler a stream at position
  0; the handler rewinds it between the two saves.
\<close>

theorem upload_original_equals_current:
  assumes "upload_image L uuid4 files fs = (UploadOk name preview info, fs')"
    and "files ''image'' = Some file"
    and "stream_pos file = 0"
  shows "fs' (current_path name) = Some (stream_data file) \<and>
         fs' (original_path name) = Some (stream_data file)"
proof -
  from assms(1,2) obtain ext where
    name: "name = uuid4 @ ''.'' @ lower ext" and
    folder: "fs' = (fs(path_join UPLOAD_FOLDER name \<mapsto> drop (stream_pos file) (stream_data file)))
                    (path_join UPLOAD_FOLDER (''original_'' @ name) \<mapsto> stream_data file)"
    by (auto simp add: upload_image_def Let_def storage_save_def storage_seek_def
        split: option.splits if_splits bind_splits)
  from folder assms(3) original_neq_current[of name] show ?thesis
    by (simp add: current_path_def original_path_def)
qed

theorem upload_original_equals_current_witness:
  "upload_image test_pil ''u1''
     [''image'' \<mapsto> \<lparr>upload_name = ''Cat.PNG'', stream_data = [3, 4, 5], stream_pos = 0\<rparr>]
     Map.empty =
     (UploadOk ''u1.png'' (''data:image/png;base64,'' @ [CHR 0x03, CHR 0x04, CHR 0x05])
        \<lparr>info_width = 3, info_height = 4, info_format = ''PNG'', info_size_bytes = 3\<rparr>,
      [''static/uploads/u1.png'' \<mapsto> [3, 4, 5],
       ''static/uploads/original_u1.png'' \<mapsto> [3, 4, 5]]) \<and>
   stream_pos \<lparr>upload_name = ''Cat.PNG'', stream_data = [3, 4, 5], stream_pos = 0\<rparr> = 0 \<and>
   [''static/uploads/u1.png'' \<mapsto> [3, 4, 5::8 word],
    ''static/uploads/original_u1.png'' \<mapsto> [3, 4, 5]] (current_path ''u1.png'') =
   [''static/uploads/u1.png'' \<mapsto> [3, 4, 5::8 word],
    ''static/uploads/original_u1.png'' \<mapsto> [3, 4, 5]] (original_path ''u1.png'')"
proof -
  let ?file = "\<lparr>upload_name = ''Cat.PNG'', stream_data = [3, 4, 5], stream_pos = 0\<rparr>"
  let ?files = "[''image'' \<mapsto> ?file]"
  let ?fs' = "[''static/uploads/u1.png'' \<mapsto> [3, 4, 5::8 word],
       ''static/uploads/original_u1.png'' \<mapsto> [3, 4, 5]]"
  have run: "upload_image test_pil ''u1'' ?files Map.empty =
     (UploadOk ''u1.png'' (''data:image/png;base64,'' @ [CHR 0x03, CHR 0x04, CHR 0x05])
        \<lparr>info_width = 3, info_height = 4, info_format = ''PNG'', info_size_bytes = 3\<rparr>, ?fs')"
    by (simp add: upload_image_def allowed_file_def rsplit_dot_def lower_def char_lower_def
        ALLOWED_EXTENSIONS_def storage_save_def storage_seek_def
        char_of_def bit_Suc_0_iff test_run_defs handler_run_defs)
  have sent: "?files ''image'' = Some ?file" by simp
  have pos: "stream_pos ?file = 0" by simp
  from upload_original_equals_current[OF run sent pos] run pos show ?thesis by simp
qed

section \<open>Reset\<close>

lemma reset_folder:
  "snd (reset filename fs) = (fs(current_path filename := None))(original_path filename := None)"
  by (rule ext) (simp add: reset_def Let_def path_exists_def os_remove_def
      current_path_def original_path_def)

lemma reset_response: "fst (reset filename fs) = ResetOk"
  by (simp add: reset_def Let_def)

text \<open>
  Claim C8. Reset answers with success and leaves neither the working copy nor the
  original of the session; on a session with no files it changes nothing and succeeds,
  so a second reset does; after it, download and both adjustment handlers answer 404
  for that session.
\<close>

theorem reset_removes_both:
  "fst (reset filename fs) = ResetOk \<and>
   snd (reset filename fs) (current_path filename) = None \<and>
   snd (reset filename fs) (original_path filename) = None \<and>
   (fs (current_path filename) = None \<and> fs (original_path filename) = None \<longrightarrow>
      reset filename fs = (ResetOk, fs)) \<and>
   reset filename (snd (reset filename fs)) = (ResetOk, snd (reset filename fs)) \<and>
   download filename (snd (reset filename fs)) = Error 404 ''File not found'' \<and>
   (filename \<noteq> [] \<and> adj_filename A = Some filename \<longrightarrow>
      preview_adjustments L A (snd (reset filename fs)) =
        (Error 404 ''Original file not found'', snd (reset filename fs))) \<and>
   (filename \<noteq> [] \<and> br_filename B = Some filename \<longrightarrow>
      brightness L B (snd (reset filename fs)) =
        (Error 404 ''File not found'', snd (reset filename fs)))"
proof -
  let ?fs' = "snd (reset filename fs)"
  have cur: "?fs' (current_path filename) = None"
    by (simp add: reset_folder)
  have orig: "?fs' (original_path filename) = None"
    by (simp add: reset_folder)
  have absent: "reset filename fs = (ResetOk, fs)"
    if "fs (current_path filename) = None \<and> fs (original_path filename) = None" for fs
    using that
    by (simp add: reset_def Let_def path_exists_def current_path_def original_path_def)
  have again: "reset filename ?fs' = (ResetOk, ?fs')"
    using cur orig by (intro absent) simp
  have dl: "download filename ?fs' = Error 404 ''File not found''"
    using cur by (simp add: download_def Let_def current_path_def)
  have adj: "preview_adjustments L A ?fs' = (Error 404 ''Original file not found'', ?fs')"
    if "filename \<noteq> [] \<and> adj_filename A = Some filename"
    using that orig
    by (simp add: preview_adjustments_def Let_def not_filename_def path_exists_def original_path_def)
  have br: "brightness L B ?fs' = (Error 404 ''File not found'', ?fs')"
    if "filename \<noteq> [] \<and> br_filename B = Some filename"
    using that cur
    by (simp add: brightness_def Let_def not_filename_def path_exists_def current_path_def)
  from reset_response cur orig absent again dl adj br show ?thesis by blast
qed

theorem reset_removes_both_witness:
  "''a.png'' \<noteq> [] \<and>
   test_fs (current_path ''a.png'') \<noteq> None \<and>
   test_fs (original_path ''a.png'') \<noteq> None \<and>
   snd (reset ''a.png'' test_fs) = Map.empty \<and>
   reset ''a.png'' Map.empty = (ResetOk, Map.empty) \<and>
   download ''a.png'' (snd (reset ''a.png'' test_fs)) = Error 404 ''File not found'' \<and>
   status (fst (preview_adjustments test_pil
     \<lparr>adj_filename = Some ''a.png'', adj_brightness = Some 2, adj_contrast = None,
       adj_saturation = None, adj_sharpness = None\<rparr> (snd (reset ''a.png'' test_fs)))) = 404 \<and>
   status (fst (brightness test_pil \<lparr>br_filename = Some ''a.png'', br_brightness = Some 2\<rparr>
     (snd (reset ''a.png'' test_fs)))) = 404"
proof -
  have folder: "snd (reset ''a.png'' test_fs) = Map.empty"
    by (rule ext) (simp add: reset_folder test_fs_def current_path_def original_path_def
        path_join_upload)
  have files: "test_fs (current_path ''a.png'') \<noteq> None" "test_fs (original_path ''a.png'') \<noteq> None"
    by (simp_all add: test_fs_def current_path_def original_path_def path_join_upload)
  from reset_removes_both[of "''a.png''" test_fs
      "\<lparr>adj_filename = Some ''a.png'', adj_brightness = Some 2, adj_contrast = None,
         adj_saturation = None, adj_sharpness = None\<rparr>" test_pil
      "\<lparr>br_filename = Some ''a.png'', br_brightness = Some 2\<rparr>"] folder files
  show ?thesis by simp
qed

end
